theory Spec2Isabelle
  imports Complex_Main "HOL-Library.Word"
begin

section \<open>Postgres server-side functions of the management layer\<close>

text \<open>
  A shallow embedding of \<^verbatim>\<open>src/manage_pg_server.c\<close>: the SQL callbacks
  \<^verbatim>\<open>sql_hosts_contains\<close>, \<^verbatim>\<open>sql_next_time_ical\<close>, \<^verbatim>\<open>sql_max_hosts\<close>,
  \<^verbatim>\<open>sql_severity_matches_ov\<close> and \<^verbatim>\<open>sql_regexp\<close>, with the two static helpers
  \<^verbatim>\<open>textndup\<close> and \<^verbatim>\<open>get_max_hosts\<close>.
\<close>

subsection \<open>Call arguments\<close>

text \<open>
  An argument slot of the function call record: the Datum and its null flag.
  \<^verbatim>\<open>PG_ARGISNULL (n)\<close> reads \<open>isnull\<close> of slot \<open>n\<close>, \<^verbatim>\<open>PG_GETARG_...(n)\<close> reads
  \<open>datum_value\<close> of slot \<open>n\<close> whatever the flag says.
\<close>

record 'a NullableDatum =
  datum_value :: 'a
  isnull :: bool

text \<open>
  A \<^verbatim>\<open>text\<close> value is a varlena: a header of \<^verbatim>\<open>VARHDRSZ\<close> bytes and the payload
  bytes. The model keeps the payload.
\<close>

type_synonym text_p = string

definition VARHDRSZ :: nat where
  "VARHDRSZ = 4"

definition VARSIZE :: "text_p \<Rightarrow> nat" where
  "VARSIZE t = VARHDRSZ + length t"

definition VARDATA :: "text_p \<Rightarrow> string" where
  "VARDATA t = t"

text \<open>
  \<^verbatim>\<open>textndup\<close>: a fresh buffer of \<open>length + 1\<close> bytes, the first \<open>length\<close> bytes
  copied from the payload, then a terminating zero byte.
\<close>

definition textndup :: "text_p \<Rightarrow> nat \<Rightarrow> string" where
  "textndup text_arg len = take len (VARDATA text_arg) @ [CHR 0x00]"

text \<open>
  What a callee taking \<^verbatim>\<open>char *\<close> reads from such a buffer: the bytes before the
  first zero byte.
\<close>

definition c_string :: "string \<Rightarrow> string" where
  "c_string buf = takeWhile (\<lambda>c. c \<noteq> CHR 0x00) buf"

subsection \<open>Severity threshold predicate\<close>

text \<open>
  \<^verbatim>\<open>float8\<close> is an IEEE double. The callback only compares doubles, and comparison
  is exact, so a double is modelled by the real number it denotes (both zeros
  denote 0), the two infinities, or not-a-number.
\<close>

datatype float8 = Finite real | PlusInfinity | MinusInfinity | NaN

fun float8_le :: "float8 \<Rightarrow> float8 \<Rightarrow> bool" where
  "float8_le NaN _ = False"
| "float8_le _ NaN = False"
| "float8_le MinusInfinity _ = True"
| "float8_le _ PlusInfinity = True"
| "float8_le (Finite x) (Finite y) = (x \<le> y)"
| "float8_le _ _ = False"

fun float8_eq :: "float8 \<Rightarrow> float8 \<Rightarrow> bool" where
  "float8_eq NaN _ = False"
| "float8_eq _ NaN = False"
| "float8_eq a b = (a = b)"

definition float8_ge :: "float8 \<Rightarrow> float8 \<Rightarrow> bool" where
  "float8_ge a b = float8_le b a"

text \<open>
  \<^verbatim>\<open>sql_severity_matches_ov\<close>: the first argument is tested against zero; the
  literal \<^verbatim>\<open>0\<close> is converted to the double zero.
\<close>

definition sql_severity_matches_ov :: "float8 NullableDatum \<Rightarrow> float8 NullableDatum \<Rightarrow> bool" where
  "sql_severity_matches_ov a0 a1 =
     (if isnull a0 then False
      else if isnull a1 then True
      else
        (let arg_one = datum_value a0; arg_two = datum_value a1
         in if float8_le arg_one (Finite 0) then float8_eq arg_one arg_two
            else float8_ge arg_one arg_two))"

subsection \<open>The maximum number of hosts\<close>

text \<open>
  The C library's \<^verbatim>\<open>atoi\<close>, which is \<^verbatim>\<open>(int) strtol (nptr, NULL, 10)\<close>: leading
  white space is skipped, one sign is accepted, then the longest run of decimal
  digits is read; with no digit the value is 0. \<^verbatim>\<open>strtol\<close> saturates at the
  bounds of \<^verbatim>\<open>long\<close> (64 bits) and the conversion to \<^verbatim>\<open>int\<close> keeps the low
  32 bits.
\<close>

definition isspace :: "char \<Rightarrow> bool" where
  "isspace c = (c = CHR '' '' \<or> c = CHR 0x09 \<or> c = CHR 0x0A \<or> c = CHR 0x0B \<or> c = CHR 0x0C \<or> c = CHR 0x0D)"

definition isdigit :: "char \<Rightarrow> bool" where
  "isdigit c = (48 \<le> (of_char c :: nat) \<and> (of_char c :: nat) \<le> 57)"

definition digit_value :: "char \<Rightarrow> nat" where
  "digit_value c = of_char c - 48"

definition decimal_value :: "string \<Rightarrow> nat" where
  "decimal_value ds = foldl (\<lambda>acc c. 10 * acc + digit_value c) 0 ds"

definition LONG_MAX :: int where
  "LONG_MAX = 2 ^ 63 - 1"

definition LONG_MIN :: int where
  "LONG_MIN = - (2 ^ 63)"

definition strtol :: "string \<Rightarrow> int" where
  "strtol nptr =
     (let s = dropWhile isspace nptr;
          negative = (case s of c # _ \<Rightarrow> c = CHR ''-'' | [] \<Rightarrow> False);
          s' = (case s of c # rest \<Rightarrow> if c = CHR ''-'' \<or> c = CHR ''+'' then rest else s | [] \<Rightarrow> s);
          n = int (decimal_value (takeWhile isdigit s'));
          v = (if negative then - n else n)
      in max LONG_MIN (min LONG_MAX v))"

definition atoi :: "string \<Rightarrow> int" where
  "atoi nptr = sint (word_of_int (strtol nptr) :: 32 word)"

text \<open>
  The decimal text of an integer, as it is stored in the value column: a minus sign
  for a negative number, then the digits, most significant first.
\<close>

fun decimal :: "nat \<Rightarrow> string" where
  "decimal n = (if n < 10 then [char_of (48 + n)] else decimal (n div 10) @ [char_of (48 + n mod 10)])"

declare decimal.simps [simp del]

definition int_text :: "int \<Rightarrow> string" where
  "int_text k = (if k < 0 then CHR ''-'' # decimal (nat (- k)) else decimal (nat k))"

text \<open>
  The table \<^verbatim>\<open>meta\<close> read by the query: a row per name, with a value column
  that may be NULL.
\<close>

type_synonym meta = "string \<rightharpoonup> string option"

text \<open>
  What SPI leaves behind after \<^verbatim>\<open>SPI_exec\<close>: its return code, the number of
  rows processed and the tuple table, each row given by what \<^verbatim>\<open>SPI_getvalue\<close>
  renders for its column 1 (\<open>None\<close> for a NULL attribute).
\<close>

record SPI_state =
  SPI_result :: int
  SPI_processed :: nat
  SPI_tuptable :: "string option list option"

definition SPI_OK_SELECT :: int where
  "SPI_OK_SELECT = 5"

definition coalesce :: "'a option \<Rightarrow> 'a \<Rightarrow> 'a" where
  "coalesce x d = (case x of None \<Rightarrow> d | Some v \<Rightarrow> v)"

text \<open>
  The query of \<^verbatim>\<open>get_max_hosts\<close>,
  \<^verbatim>\<open>SELECT coalesce ((SELECT value FROM meta WHERE name = 'max_hosts'), '4095');\<close>
  one row, whose only column is the stored value, or the text 4095 when there is no
  such row or its value is NULL.
\<close>

definition SPI_exec_select_max_hosts :: "meta \<Rightarrow> SPI_state" where
  "SPI_exec_select_max_hosts m =
     \<lparr>SPI_result = SPI_OK_SELECT,
      SPI_processed = 1,
      SPI_tuptable = Some [Some (coalesce (case m ''max_hosts'' of None \<Rightarrow> None | Some v \<Rightarrow> v) ''4095'')]\<rparr>"

definition get_max_hosts :: "meta \<Rightarrow> int" where
  "get_max_hosts m =
     (let max_hosts = 4095;
          spi = SPI_exec_select_max_hosts m
      in if SPI_processed spi > 0 \<and> SPI_result spi > 0 \<and> SPI_tuptable spi \<noteq> None
         then (case SPI_tuptable spi of
                 Some (cell # _) \<Rightarrow> (case cell of Some c \<Rightarrow> atoi c | None \<Rightarrow> max_hosts)
               | _ \<Rightarrow> max_hosts)
         else max_hosts)"

subsection \<open>Host containment\<close>

text \<open>
  \<^verbatim>\<open>hosts_str_contains\<close> belongs to the hosts library (\<^verbatim>\<open>gvm/base/hosts.h\<close>); it is
  a parameter of the model, called with the two C strings and the cap.
\<close>

definition sql_hosts_contains ::
  "(string \<Rightarrow> string \<Rightarrow> int \<Rightarrow> int) \<Rightarrow> meta \<Rightarrow> text_p NullableDatum \<Rightarrow> text_p NullableDatum \<Rightarrow> bool" where
  "sql_hosts_contains hosts_str_contains m a0 a1 =
     (if isnull a0 \<or> isnull a1 then False
      else
        (let hosts_arg = datum_value a0;
             hosts = textndup hosts_arg (VARSIZE hosts_arg - VARHDRSZ);
             find_host_arg = datum_value a1;
             find_host = textndup find_host_arg (VARSIZE find_host_arg - VARHDRSZ);
             max_hosts = get_max_hosts m
         in if hosts_str_contains (c_string hosts) (c_string find_host) max_hosts \<noteq> 0
            then True else False))"

subsection \<open>Next time of a schedule\<close>

text \<open>
  \<^verbatim>\<open>icalendar_next_time_from_string\<close> is declared in \<^verbatim>\<open>manage_utils.h\<close>; it is a
  parameter of the model, and so is the width of the integer it returns. The zone
  is a C string or the null pointer. The result is assigned to an \<^verbatim>\<open>int32\<close>.
  \<open>nargs\<close> is \<^verbatim>\<open>PG_NARGS()\<close>; the three slots are what the call record holds at
  positions 0, 1 and 2, whether or not the caller filled them.
\<close>

definition sql_next_time_ical ::
  "(string \<Rightarrow> string option \<Rightarrow> 32 word \<Rightarrow> 'w::len word) \<Rightarrow> nat \<Rightarrow>
   text_p NullableDatum \<Rightarrow> text_p NullableDatum \<Rightarrow> 32 word NullableDatum \<Rightarrow> 32 word option" where
  "sql_next_time_ical icalendar_next_time_from_string nargs a0 a1 a2 =
     (if nargs < 1 \<or> isnull a0 then None
      else
        (let ical_string_arg = datum_value a0;
             ical_string = textndup ical_string_arg (VARSIZE ical_string_arg - VARHDRSZ);
             zone = (if nargs < 2 \<or> isnull a1 then None
                     else (let timezone_arg = datum_value a1
                           in Some (c_string (textndup timezone_arg (VARSIZE timezone_arg - VARHDRSZ)))));
             periods_offset = datum_value a2;
             ret = (scast (icalendar_next_time_from_string (c_string ical_string) zone periods_offset) :: 32 word)
         in Some ret))"

subsection \<open>Number of hosts\<close>

text \<open>
  \<^verbatim>\<open>manage_count_hosts_max\<close> is declared in \<^verbatim>\<open>manage_utils.h\<close>; it is a parameter
  of the model. It either returns an \<^verbatim>\<open>int\<close> or does not return (\<open>Inl\<close>).
\<close>

definition sql_max_hosts ::
  "(string \<Rightarrow> string \<Rightarrow> int \<Rightarrow> 'e + int) \<Rightarrow> meta \<Rightarrow> text_p NullableDatum \<Rightarrow> text_p NullableDatum \<Rightarrow> 'e + int" where
  "sql_max_hosts manage_count_hosts_max m a0 a1 =
     (if isnull a0 then Inr 0
      else
        (let hosts_arg = datum_value a0;
             hosts = textndup hosts_arg (VARSIZE hosts_arg - VARHDRSZ);
             exclude = (if isnull a1 then [CHR 0x00]
                        else (let exclude_arg = datum_value a1
                              in textndup exclude_arg (VARSIZE exclude_arg - VARHDRSZ)));
             max_hosts = get_max_hosts m
         in manage_count_hosts_max (c_string hosts) (c_string exclude) max_hosts))"

subsection \<open>Regular expression match\<close>

text \<open>
  \<^verbatim>\<open>g_regex_match_simple\<close> belongs to GLib; it is a parameter of the model, called
  with the pattern, the string, and zero compile and match options.
\<close>

definition sql_regexp ::
  "(string \<Rightarrow> string \<Rightarrow> nat \<Rightarrow> nat \<Rightarrow> int) \<Rightarrow> text_p NullableDatum \<Rightarrow> text_p NullableDatum \<Rightarrow> bool" where
  "sql_regexp g_regex_match_simple a0 a1 =
     (if isnull a0 \<or> isnull a1 then False
      else
        (let regexp_arg = datum_value a1;
             regexp = textndup regexp_arg (VARSIZE regexp_arg - VARHDRSZ);
             string_arg = datum_value a0;
             str = textndup string_arg (VARSIZE string_arg - VARHDRSZ)
         in if g_regex_match_simple (c_string regexp) (c_string str) 0 0 \<noteq> 0
            then True else False))"

subsection \<open>Counting hosts\<close>

text \<open>
  Modelled from the spec: a host is an address or a host name. \<^verbatim>\<open>manage_count_hosts_max\<close>
  is declared in \<^verbatim>\<open>manage_utils.h\<close> and defined outside the file at hand; this and the
  following definitions give the specification's \<open>count\<close> (sections 3, 4.1, 4.2 and 7).
  Addresses are IPv4 addresses, read as integers.
\<close>

datatype host = Address nat | Hostname string

text \<open>
  Modelled from the spec: the host atoms of the data model: single address, single
  host name, CIDR block (address and prefix length), address range (start, end) and
  short-form range (base address and the last value of the trailing octet).
\<close>

datatype HostAtom =
    SingleAddress nat
  | SingleHostname string
  | CIDRBlock nat nat
  | AddressRange nat nat
  | ShortRange nat nat

text \<open>
  Modelled from the spec: the one failure that is propagated, a contract violation
  of the caller such as a negative cap.
\<close>

datatype fault = ContractViolation

text \<open>
  Modelled from the spec: splitting a text at every occurrence of a separator.
\<close>

fun split_on :: "char \<Rightarrow> string \<Rightarrow> string list" where
  "split_on d [] = [[]]"
| "split_on d (c # cs) =
     (if c = d then [] # split_on d cs
      else (case split_on d cs of t # ts \<Rightarrow> (c # t) # ts | [] \<Rightarrow> [[c]]))"

text \<open>
  Modelled from the spec: the parts of a token before and after the first
  occurrence of a separator.
\<close>

definition split_first :: "char \<Rightarrow> string \<Rightarrow> string \<times> string" where
  "split_first d s = (takeWhile (\<lambda>c. c \<noteq> d) s, drop 1 (dropWhile (\<lambda>c. c \<noteq> d) s))"

text \<open>
  Modelled from the spec: white space around a token is trimmed.
\<close>

definition trim :: "string \<Rightarrow> string" where
  "trim s = rev (dropWhile isspace (rev (dropWhile isspace s)))"

text \<open>
  Modelled from the spec: a number is a non-empty run of decimal digits; anything
  else is a numeric parsing failure.
\<close>

definition parse_number :: "string \<Rightarrow> nat option" where
  "parse_number s = (if s \<noteq> [] \<and> list_all isdigit s then Some (decimal_value s) else None)"

text \<open>
  Modelled from the spec: an address is four numbers of at most 255 separated by
  dots, read as one integer.
\<close>

definition parse_address :: "string \<Rightarrow> nat option" where
  "parse_address s =
     (case map parse_number (split_on CHR ''.'' s) of
        [Some a, Some b, Some c, Some d] \<Rightarrow>
          if a \<le> 255 \<and> b \<le> 255 \<and> c \<le> 255 \<and> d \<le> 255
          then Some (((a * 256 + b) * 256 + c) * 256 + d) else None
      | _ \<Rightarrow> None)"

text \<open>
  Modelled from the spec: a token is classified by shape. With a slash it is a CIDR
  block, whose prefix length must lie in 0..32; with a dash it is a range, full when
  the right side is an address and short when it is a single number that replaces
  the last octet, and the end must not precede the start; otherwise it is a literal
  address or a host name. The specification leaves open what an empty token and a
  token of digits and dots that is no address are: both are taken as malformed.
\<close>

definition parse_atom :: "string \<Rightarrow> HostAtom option" where
  "parse_atom tok =
     (if CHR ''/'' \<in> set tok then
        (case split_first CHR ''/'' tok of (a, p) \<Rightarrow>
           (case (parse_address a, parse_number p) of
              (Some base, Some len) \<Rightarrow> if len \<le> 32 then Some (CIDRBlock base len) else None
            | _ \<Rightarrow> None))
      else if CHR ''-'' \<in> set tok then
        (case split_first CHR ''-'' tok of (l, r) \<Rightarrow>
           (case parse_address l of
              None \<Rightarrow> None
            | Some start \<Rightarrow>
                if CHR ''.'' \<in> set r then
                  (case parse_address r of
                     Some end \<Rightarrow> if start \<le> end then Some (AddressRange start end) else None
                   | None \<Rightarrow> None)
                else
                  (case parse_number r of
                     Some z \<Rightarrow> if z \<le> 255 \<and> start mod 256 \<le> z then Some (ShortRange start z) else None
                   | None \<Rightarrow> None)))
      else if tok = [] then None
      else if list_all (\<lambda>c. isdigit c \<or> c = CHR ''.'') tok then
        (case parse_address tok of Some a \<Rightarrow> Some (SingleAddress a) | None \<Rightarrow> None)
      else Some (SingleHostname tok))"

text \<open>
  Modelled from the spec: an expression is split on commas and every token must
  parse; the empty expression has no atom. \<open>None\<close> is the ParseError.
\<close>

definition parse_hosts :: "string \<Rightarrow> HostAtom list option" where
  "parse_hosts expression =
     (if trim expression = [] then Some []
      else those (map (\<lambda>tok. parse_atom (trim tok)) (split_on CHR '','' expression)))"

text \<open>
  Modelled from the spec: the first and last address of an atom that denotes
  addresses.
\<close>

fun atom_bounds :: "HostAtom \<Rightarrow> (nat \<times> nat) option" where
  "atom_bounds (SingleAddress a) = Some (a, a)"
| "atom_bounds (SingleHostname n) = None"
| "atom_bounds (CIDRBlock base len) =
     (let block = 2 ^ (32 - len); first = (base div block) * block
      in Some (first, first + block - 1))"
| "atom_bounds (AddressRange start end) = Some (start, end)"
| "atom_bounds (ShortRange base z) = Some (base, (base div 256) * 256 + z)"

text \<open>
  Modelled from the spec: membership of a host in an atom by arithmetic: integer
  comparison for addresses, equality for host names.
\<close>

fun atom_contains :: "HostAtom \<Rightarrow> host \<Rightarrow> bool" where
  "atom_contains (SingleHostname n) h = (h = Hostname n)"
| "atom_contains a (Address x) =
     (case atom_bounds a of Some (lo, hi) \<Rightarrow> lo \<le> x \<and> x \<le> hi | None \<Rightarrow> False)"
| "atom_contains a (Hostname n) = False"

text \<open>
  Modelled from the spec: a host is in an expression when one of its atoms contains
  it.
\<close>

definition hosts_contain :: "HostAtom list \<Rightarrow> host \<Rightarrow> bool" where
  "hosts_contain atoms h = list_ex (\<lambda>a. atom_contains a h) atoms"

text \<open>
  Modelled from the spec: the set of hosts an expression denotes.
\<close>

definition denoted_hosts :: "HostAtom list \<Rightarrow> host set" where
  "denoted_hosts atoms = {h. hosts_contain atoms h}"

text \<open>
  Modelled from the spec: one step of the enumeration. A host that is excluded or
  was counted before is skipped; any other host enters the deduplication set.
\<close>

definition visit :: "HostAtom list \<Rightarrow> host \<Rightarrow> host list \<Rightarrow> host list" where
  "visit exclude h seen = (if hosts_contain exclude h \<or> h \<in> set seen then seen else h # seen)"

text \<open>
  Modelled from the spec: the enumeration of one range, address by address, which
  stops as soon as the number of distinct hosts counted reaches the cap.
\<close>

function count_range :: "HostAtom list \<Rightarrow> nat \<Rightarrow> nat \<Rightarrow> nat \<Rightarrow> host list \<Rightarrow> host list" where
  "count_range exclude cap lo hi seen =
     (if cap \<le> length seen \<or> hi < lo then seen
      else count_range exclude cap (Suc lo) hi (visit exclude (Address lo) seen))"
  by pat_completeness auto
termination
  by (relation "measure (\<lambda>(exclude, cap, lo, hi, seen). Suc hi - lo)") auto

text \<open>
  Modelled from the spec: the enumeration of one atom.
\<close>

definition count_atom :: "HostAtom list \<Rightarrow> nat \<Rightarrow> HostAtom \<Rightarrow> host list \<Rightarrow> host list" where
  "count_atom exclude cap a seen =
     (case a of
        SingleHostname n \<Rightarrow> visit exclude (Hostname n) seen
      | _ \<Rightarrow> (case atom_bounds a of
                Some (lo, hi) \<Rightarrow> count_range exclude cap lo hi seen
              | None \<Rightarrow> seen))"

text \<open>
  Modelled from the spec: the enumeration atom by atom, in parse order, stopping as
  soon as the cap is reached.
\<close>

fun count_atoms :: "HostAtom list \<Rightarrow> nat \<Rightarrow> HostAtom list \<Rightarrow> host list \<Rightarrow> host list" where
  "count_atoms exclude cap [] seen = seen"
| "count_atoms exclude cap (a # as) seen =
     (if cap \<le> length seen then seen
      else count_atoms exclude cap as (count_atom exclude cap a seen))"

text \<open>
  Modelled from the spec: \<open>count (expression, exclude, maxHosts)\<close>. A negative cap
  is a contract violation; a malformed expression or exclude list degrades to the
  count 0; otherwise the result is the number of hosts the capped enumeration
  counted.
\<close>

definition manage_count_hosts_max :: "string \<Rightarrow> string \<Rightarrow> int \<Rightarrow> fault + int" where
  "manage_count_hosts_max expression exclude max_hosts =
     (if max_hosts < 0 then Inl ContractViolation
      else
        (case parse_hosts expression of
           None \<Rightarrow> Inr 0
         | Some atoms \<Rightarrow>
             (case parse_hosts exclude of
                None \<Rightarrow> Inr 0
              | Some excluded \<Rightarrow> Inr (int (length (count_atoms excluded (nat max_hosts) atoms []))))))"

text \<open>The hosts of one atom.\<close>

definition atom_hosts :: "HostAtom \<Rightarrow> host set" where
  "atom_hosts a = {h. atom_contains a h}"

text \<open>
  The relation between the deduplication set before and after a part of the
  enumeration that offers the hosts \<open>H\<close>: nothing is lost, nothing is counted twice,
  the cap is respected, only offered hosts are added, and all of them are unless the
  cap was reached.
\<close>

definition extends_seen :: "nat \<Rightarrow> host list \<Rightarrow> host set \<Rightarrow> host list \<Rightarrow> bool" where
  "extends_seen cap seen H r =
     (distinct r \<and> length r \<le> cap \<and> set seen \<subseteq> set r \<and> set r \<subseteq> set seen \<union> H \<and>
      (length r < cap \<longrightarrow> set r = set seen \<union> H))"

section \<open>Properties\<close>

subsection \<open>Texts and C strings\<close>

lemma c_string_textndup:
  "CHR 0x00 \<notin> set t \<Longrightarrow> c_string (textndup t (VARSIZE t - VARHDRSZ)) = t"
proof -
  assume "CHR 0x00 \<notin> set t"
  then have "takeWhile (\<lambda>c. c \<noteq> CHR 0x00) t = t"
    by (induction t) auto
  then show ?thesis
    by (simp add: c_string_def textndup_def VARSIZE_def VARDATA_def takeWhile_tail)
qed

subsection \<open>Severity threshold predicate\<close>

text \<open>
  C8. An absent (null) value argument yields false, and a present value with an
  absent (null) threshold argument yields true, whatever the Datum fields hold.
\<close>

theorem severity_null_asymmetry:
  "sql_severity_matches_ov \<lparr>datum_value = v, isnull = True\<rparr> a1 = False \<and>
   sql_severity_matches_ov \<lparr>datum_value = v, isnull = False\<rparr> \<lparr>datum_value = t, isnull = True\<rparr> = True"
  by (simp add: sql_severity_matches_ov_def)

text \<open>
  C1, as stated, tests the sign of the threshold and so makes the value 5 fail
  against the threshold -1. The code tests the sign of the value: 5 is positive,
  5 >= -1 holds, and the callback returns true.
\<close>

theorem severity_threshold_counterexample:
  "sql_severity_matches_ov \<lparr>datum_value = Finite 5, isnull = False\<rparr> \<lparr>datum_value = Finite (- 1), isnull = False\<rparr>
   \<and> (- 1 :: real) \<le> 0 \<and> (5 :: real) \<noteq> - 1"
  by (simp add: sql_severity_matches_ov_def float8_ge_def)

text \<open>
  C1, amended. For two present finite doubles: when the value (the first argument)
  is non-positive the result is true exactly when value = threshold, otherwise
  exactly when value >= threshold. In particular a threshold of 0 is matched
  exactly by the values v >= 0, and the value 5 matches the threshold -1.
\<close>

theorem severity_matches_by_value_sign:
  "sql_severity_matches_ov \<lparr>datum_value = Finite v, isnull = False\<rparr> \<lparr>datum_value = Finite t, isnull = False\<rparr>
     = (if v \<le> 0 then v = t else t \<le> v)
   \<and> sql_severity_matches_ov \<lparr>datum_value = Finite v, isnull = False\<rparr> \<lparr>datum_value = Finite 0, isnull = False\<rparr>
     = (0 \<le> v)
   \<and> sql_severity_matches_ov \<lparr>datum_value = Finite 5, isnull = False\<rparr> \<lparr>datum_value = Finite (- 1), isnull = False\<rparr>
     = True"
  by (auto simp add: sql_severity_matches_ov_def float8_ge_def)

subsection \<open>The maximum number of hosts\<close>

lemma of_char_digit: "(d::nat) < 10 \<Longrightarrow> (of_char (char_of (48 + d) :: char) :: nat) = 48 + d"
  by (simp add: of_char_of)

lemma isdigit_digit: "(d::nat) < 10 \<Longrightarrow> isdigit (char_of (48 + d))"
  by (simp add: isdigit_def of_char_digit)

lemma digit_value_digit: "(d::nat) < 10 \<Longrightarrow> digit_value (char_of (48 + d)) = d"
  by (simp add: digit_value_def of_char_digit)

lemma isdigit_not_space: "isdigit c \<Longrightarrow> \<not> isspace c"
  by (auto simp: isdigit_def isspace_def)

lemma isdigit_not_sign: "isdigit c \<Longrightarrow> c \<noteq> CHR ''-'' \<and> c \<noteq> CHR ''+''"
  by (auto simp: isdigit_def)

lemma decimal_digits: "list_all isdigit (decimal n)"
proof (induction n rule: decimal.induct)
  case (1 n)
  show ?case
  proof (cases "n < 10")
    case True
    then show ?thesis by (subst decimal.simps) (simp add: isdigit_digit)
  next
    case False
    with 1 show ?thesis by (subst decimal.simps) (simp add: isdigit_digit)
  qed
qed

lemma decimal_not_Nil: "decimal n \<noteq> []"
  by (subst decimal.simps) simp

lemma decimal_value_snoc: "decimal_value (ds @ [c]) = 10 * decimal_value ds + digit_value c"
  by (simp add: decimal_value_def)

lemma decimal_value_decimal: "decimal_value (decimal n) = n"
proof (induction n rule: decimal.induct)
  case (1 n)
  show ?case
  proof (cases "n < 10")
    case True
    then show ?thesis by (subst decimal.simps) (simp add: decimal_value_def digit_value_digit)
  next
    case False
    with 1 show ?thesis
      by (subst decimal.simps) (simp add: decimal_value_snoc digit_value_digit)
  qed
qed

lemma takeWhile_all: "list_all P xs \<Longrightarrow> takeWhile P xs = xs"
  by (induction xs) auto

lemma strtol_digits:
  assumes "list_all isdigit ds" and "ds \<noteq> []"
  shows "strtol ds = max LONG_MIN (min LONG_MAX (int (decimal_value ds)))"
proof -
  obtain c cs where cs: "ds = c # cs"
    using assms(2) by (cases ds) auto
  have d: "isdigit c" using assms(1) by (simp add: cs)
  have 1: "dropWhile isspace ds = ds"
    using d by (simp add: cs isdigit_not_space)
  have 2: "takeWhile isdigit ds = ds"
    using assms(1) by (rule takeWhile_all)
  have 3: "c \<noteq> CHR ''-''" "c \<noteq> CHR ''+''"
    using isdigit_not_sign [OF d] by simp_all
  have 4: "(case ds of c # rest \<Rightarrow> if c = CHR ''-'' \<or> c = CHR ''+'' then rest else ds | [] \<Rightarrow> ds) = ds"
    using 3 by (simp add: cs)
  have 5: "(case ds of c # _ \<Rightarrow> c = CHR ''-'' | [] \<Rightarrow> False) = False"
    using 3 by (simp add: cs)
  show ?thesis
    unfolding strtol_def Let_def 1 4 5 2 by simp
qed

lemma strtol_minus_digits:
  assumes "list_all isdigit ds"
  shows "strtol (CHR ''-'' # ds) = max LONG_MIN (min LONG_MAX (- int (decimal_value ds)))"
proof -
  have 1: "dropWhile isspace (CHR ''-'' # ds) = CHR ''-'' # ds"
    by (simp add: isspace_def)
  have 2: "takeWhile isdigit ds = ds"
    using assms by (rule takeWhile_all)
  show ?thesis
    unfolding strtol_def Let_def 1 by (simp add: 2)
qed

lemma strtol_int_text: "strtol (int_text k) = max LONG_MIN (min LONG_MAX k)"
  by (simp add: int_text_def strtol_digits strtol_minus_digits decimal_digits decimal_not_Nil decimal_value_decimal)

lemma sint_int32: "- (2 ^ 31) \<le> k \<Longrightarrow> k < 2 ^ 31 \<Longrightarrow> sint (word_of_int k :: 32 word) = k"
  by (simp add: sint_sbintrunc' signed_take_bit_int_eq_self)

lemma atoi_int_text: "- (2 ^ 31) \<le> k \<Longrightarrow> k < 2 ^ 31 \<Longrightarrow> atoi (int_text k) = k"
  by (simp add: atoi_def strtol_int_text LONG_MAX_def LONG_MIN_def sint_int32)

lemma takeWhile_none: "\<forall>c \<in> set xs. \<not> P c \<Longrightarrow> takeWhile P xs = []"
  by (cases xs) auto

lemma atoi_no_digit: "\<forall>c \<in> set s. \<not> isdigit c \<Longrightarrow> atoi s = 0"
proof -
  assume a: "\<forall>c \<in> set s. \<not> isdigit c"
  define t where "t = dropWhile isspace s"
  have t: "set t \<subseteq> set s" unfolding t_def by (rule set_dropWhileD [THEN subsetI]) 
  define u where "u = (case t of c # rest \<Rightarrow> if c = CHR ''-'' \<or> c = CHR ''+'' then rest else t | [] \<Rightarrow> t)"
  have "set u \<subseteq> set t" by (auto simp: u_def split: list.splits)
  with t a have "\<forall>c \<in> set u. \<not> isdigit c" by blast
  then have "takeWhile isdigit u = []" by (rule takeWhile_none)
  then show ?thesis
    by (simp add: atoi_def strtol_def Let_def t_def [symmetric] u_def [symmetric] decimal_value_def LONG_MIN_def LONG_MAX_def)
qed

lemma get_max_hosts_stored: "m ''max_hosts'' = Some (Some s) \<Longrightarrow> get_max_hosts m = atoi s"
  by (simp add: get_max_hosts_def SPI_exec_select_max_hosts_def SPI_OK_SELECT_def coalesce_def)

lemma get_max_hosts_absent: "m ''max_hosts'' = None \<or> m ''max_hosts'' = Some None \<Longrightarrow> get_max_hosts m = 4095"
proof -
  have "atoi ''4095'' = 4095" by code_simp
  moreover assume "m ''max_hosts'' = None \<or> m ''max_hosts'' = Some None"
  ultimately show ?thesis
    by (auto simp add: get_max_hosts_def SPI_exec_select_max_hosts_def SPI_OK_SELECT_def coalesce_def)
qed

text \<open>
  C3, as stated, gives 4095 for a stored value that is not numeric. The code hands
  the stored text to \<^verbatim>\<open>atoi\<close>, which reads no digit in \<^verbatim>\<open>abc\<close> and returns 0.
\<close>

theorem get_max_hosts_non_numeric_counterexample:
  "get_max_hosts (Map.empty(''max_hosts'' \<mapsto> Some ''abc'')) = 0 \<and> (0::int) \<noteq> 4095"
proof -
  have "atoi ''abc'' = 0" by code_simp
  then show ?thesis by (simp add: get_max_hosts_stored)
qed

text \<open>
  C3, amended. The cap is 4095 when there is no row named \<^verbatim>\<open>max_hosts\<close> or its
  value is NULL; otherwise it is \<^verbatim>\<open>atoi\<close> of the stored text: 0 when the text holds
  no decimal digit, and k when the text is the decimal text of an integer k that
  fits an \<^verbatim>\<open>int\<close>.
\<close>

theorem get_max_hosts_cases:
  "(m ''max_hosts'' = None \<or> m ''max_hosts'' = Some None \<longrightarrow> get_max_hosts m = 4095) \<and>
   (m ''max_hosts'' = Some (Some s) \<longrightarrow> get_max_hosts m = atoi s) \<and>
   (m ''max_hosts'' = Some (Some s) \<and> (\<forall>c \<in> set s. \<not> isdigit c) \<longrightarrow> get_max_hosts m = 0) \<and>
   (m ''max_hosts'' = Some (Some (int_text k)) \<and> - (2 ^ 31) \<le> k \<and> k < 2 ^ 31 \<longrightarrow> get_max_hosts m = k)"
  using get_max_hosts_absent [of m] get_max_hosts_stored [of m]
  by (auto simp add: atoi_no_digit atoi_int_text)

theorem get_max_hosts_cases_witness:
  "get_max_hosts Map.empty = 4095 \<and>
   get_max_hosts (Map.empty(''max_hosts'' \<mapsto> None)) = 4095 \<and>
   get_max_hosts (Map.empty(''max_hosts'' \<mapsto> Some ''n/a'')) = 0 \<and>
   get_max_hosts (Map.empty(''max_hosts'' \<mapsto> Some ''-20'')) = - 20"
proof -
  have t: "int_text (- 20) = ''-20''" by code_simp
  have d: "\<forall>c \<in> set ''n/a''. \<not> isdigit c" by (simp add: isdigit_def)
  have 1: "get_max_hosts Map.empty = 4095"
    using get_max_hosts_cases [of Map.empty] by simp
  have 2: "get_max_hosts (Map.empty(''max_hosts'' \<mapsto> None)) = 4095"
    using get_max_hosts_cases [of "Map.empty(''max_hosts'' \<mapsto> None)"] by simp
  have 3: "get_max_hosts (Map.empty(''max_hosts'' \<mapsto> Some ''n/a'')) = 0"
    using get_max_hosts_cases [of "Map.empty(''max_hosts'' \<mapsto> Some ''n/a'')" "''n/a''" 0] d by simp
  have 4: "get_max_hosts (Map.empty(''max_hosts'' \<mapsto> Some ''-20'')) = - 20"
    using get_max_hosts_cases [of "Map.empty(''max_hosts'' \<mapsto> Some (int_text (- 20)))" "''-20''" "- 20"]
    unfolding t by simp
  show ?thesis using 1 2 3 4 by simp
qed

subsection \<open>Host containment\<close>

text \<open>
  C5. If the expression argument or the candidate argument is null, the result is
  false: neither the configuration nor the hosts library is consulted, whatever
  they would answer.
\<close>

theorem hosts_contains_null:
  "isnull a0 \<or> isnull a1 \<Longrightarrow> sql_hosts_contains hosts_str_contains m a0 a1 = False"
  by (simp add: sql_hosts_contains_def)

theorem hosts_contains_null_witness:
  "sql_hosts_contains (\<lambda>hosts find_host max_hosts. 1) Map.empty
     \<lparr>datum_value = ''10.0.0.0/30'', isnull = False\<rparr> \<lparr>datum_value = ''10.0.0.2'', isnull = True\<rparr> = False \<and>
   sql_hosts_contains (\<lambda>hosts find_host max_hosts. 1) Map.empty
     \<lparr>datum_value = ''10.0.0.0/30'', isnull = True\<rparr> \<lparr>datum_value = ''10.0.0.2'', isnull = False\<rparr> = False"
  using hosts_contains_null [of "\<lparr>datum_value = ''10.0.0.0/30'', isnull = False\<rparr>" "\<lparr>datum_value = ''10.0.0.2'', isnull = True\<rparr>"]
    hosts_contains_null [of "\<lparr>datum_value = ''10.0.0.0/30'', isnull = True\<rparr>" "\<lparr>datum_value = ''10.0.0.2'', isnull = False\<rparr>"]
  by simp

subsection \<open>Number of hosts\<close>

text \<open>
  C6. A null expression argument yields 0, and a null exclude argument gives the
  same result as the empty text, for every expression, configuration and counting
  function.
\<close>

theorem max_hosts_null_args:
  "sql_max_hosts count_fn m \<lparr>datum_value = h, isnull = True\<rparr> a1 = Inr 0 \<and>
   sql_max_hosts count_fn m a0 \<lparr>datum_value = x, isnull = True\<rparr>
     = sql_max_hosts count_fn m a0 \<lparr>datum_value = [], isnull = False\<rparr>"
  by (simp add: sql_max_hosts_def textndup_def VARDATA_def)

subsection \<open>Counting hosts\<close>

lemma extends_seen_stop:
  "distinct seen \<Longrightarrow> length seen \<le> cap \<Longrightarrow> cap \<le> length seen \<or> H = {} \<Longrightarrow> extends_seen cap seen H seen"
  by (auto simp add: extends_seen_def)

lemma extends_seen_trans:
  assumes 1: "extends_seen cap seen H1 r1" and 2: "extends_seen cap r1 H2 r2"
  shows "extends_seen cap seen (H1 \<union> H2) r2"
proof -
  have d1: "distinct r1" and s1: "set seen \<subseteq> set r1" and u1: "set r1 \<subseteq> set seen \<union> H1"
    and e1: "length r1 < cap \<longrightarrow> set r1 = set seen \<union> H1"
    using 1 by (simp_all add: extends_seen_def)
  have d2: "distinct r2" and l2: "length r2 \<le> cap" and s2: "set r1 \<subseteq> set r2"
    and u2: "set r2 \<subseteq> set r1 \<union> H2" and e2: "length r2 < cap \<longrightarrow> set r2 = set r1 \<union> H2"
    using 2 by (simp_all add: extends_seen_def)
  have "card (set r1) \<le> card (set r2)" using s2 by (simp add: card_mono)
  then have le: "length r1 \<le> length r2" using d1 d2 by (simp add: distinct_card)
  have a: "set seen \<subseteq> set r2" using s1 s2 by blast
  have b: "set r2 \<subseteq> set seen \<union> (H1 \<union> H2)" using u1 u2 by blast
  have c: "length r2 < cap \<longrightarrow> set r2 = set seen \<union> (H1 \<union> H2)"
  proof
    assume lt: "length r2 < cap"
    then have "length r1 < cap" using le by simp
    then have "set r1 = set seen \<union> H1" using e1 by simp
    moreover have "set r2 = set r1 \<union> H2" using e2 lt by simp
    ultimately show "set r2 = set seen \<union> (H1 \<union> H2)" by blast
  qed
  show ?thesis unfolding extends_seen_def using d2 l2 a b c by blast
qed

lemma extends_seen_visit:
  assumes "distinct seen" and "length seen < cap"
  shows "extends_seen cap seen ({h} - denoted_hosts exclude) (visit exclude h seen)"
  using assms by (auto simp add: extends_seen_def visit_def denoted_hosts_def)

lemma count_range_extends:
  "distinct seen \<Longrightarrow> length seen \<le> cap \<Longrightarrow>
   extends_seen cap seen (Address ` {lo..hi} - denoted_hosts exclude) (count_range exclude cap lo hi seen)"
proof (induction exclude cap lo hi seen rule: count_range.induct)
  case (1 exclude cap lo hi seen)
  show ?case
  proof (cases "cap \<le> length seen \<or> hi < lo")
    case True
    then have "cap \<le> length seen \<or> Address ` {lo..hi} - denoted_hosts exclude = {}" by auto
    then have "extends_seen cap seen (Address ` {lo..hi} - denoted_hosts exclude) seen"
      by (rule extends_seen_stop [OF "1.prems"])
    then show ?thesis using True by simp
  next
    case False
    let ?seen' = "visit exclude (Address lo) seen"
    have lt: "length seen < cap" using False by simp
    have v: "extends_seen cap seen ({Address lo} - denoted_hosts exclude) ?seen'"
      using "1.prems"(1) lt by (rule extends_seen_visit)
    then have d: "distinct ?seen'" and l: "length ?seen' \<le> cap"
      by (simp_all add: extends_seen_def)
    have r: "count_range exclude cap lo hi seen = count_range exclude cap (Suc lo) hi ?seen'"
      using False by simp
    have s: "{lo..hi} = insert lo {Suc lo..hi}"
      using False by auto
    have u: "({Address lo} - denoted_hosts exclude) \<union> (Address ` {Suc lo..hi} - denoted_hosts exclude)
               = Address ` {lo..hi} - denoted_hosts exclude"
      unfolding s by blast
    have "extends_seen cap ?seen' (Address ` {Suc lo..hi} - denoted_hosts exclude)
            (count_range exclude cap (Suc lo) hi ?seen')"
      by (rule "1.IH" [OF False d l])
    with v have "extends_seen cap seen
        (({Address lo} - denoted_hosts exclude) \<union> (Address ` {Suc lo..hi} - denoted_hosts exclude))
        (count_range exclude cap (Suc lo) hi ?seen')"
      by (rule extends_seen_trans)
    then show ?thesis unfolding r u .
  qed
qed

lemma atom_bounds_None: "atom_bounds a = None \<Longrightarrow> \<exists>n. a = SingleHostname n"
  by (cases a) (auto simp add: Let_def)

lemma atom_hosts_bounds:
  assumes b: "atom_bounds a = Some (lo, hi)"
  shows "atom_hosts a = Address ` {lo..hi}"
proof -
  have "atom_contains a h = (h \<in> Address ` {lo..hi})" for h
  proof (cases h)
    case (Address x)
    then show ?thesis using b by (cases a) auto
  next
    case (Hostname m)
    then show ?thesis using b by (cases a) auto
  qed
  then show ?thesis by (auto simp add: atom_hosts_def)
qed

lemma atom_hosts_hostname: "atom_hosts (SingleHostname n) = {Hostname n}"
  by (auto simp add: atom_hosts_def)

lemma finite_atom_hosts: "finite (atom_hosts a)"
proof (cases "atom_bounds a")
  case None
  then show ?thesis using atom_bounds_None [of a] by (auto simp add: atom_hosts_hostname)
next
  case (Some b)
  then show ?thesis by (cases b) (simp add: atom_hosts_bounds)
qed

lemma count_atom_extends:
  assumes "distinct seen" and "length seen < cap"
  shows "extends_seen cap seen (atom_hosts a - denoted_hosts exclude) (count_atom exclude cap a seen)"
proof (cases "atom_bounds a")
  case None
  then obtain n where a: "a = SingleHostname n" using atom_bounds_None by blast
  have "extends_seen cap seen ({Hostname n} - denoted_hosts exclude) (visit exclude (Hostname n) seen)"
    using assms by (rule extends_seen_visit)
  then show ?thesis by (simp add: a count_atom_def atom_hosts_hostname)
next
  case (Some b)
  obtain lo hi where b: "atom_bounds a = Some (lo, hi)" using Some by (cases b) auto
  have c: "count_atom exclude cap a seen = count_range exclude cap lo hi seen"
    using b by (cases a) (simp_all add: count_atom_def)
  have l: "length seen \<le> cap" using assms(2) by simp
  show ?thesis
    unfolding c atom_hosts_bounds [OF b]
    by (rule count_range_extends [OF assms(1) l])
qed

lemma denoted_hosts_Nil: "denoted_hosts [] = {}"
  by (simp add: denoted_hosts_def hosts_contain_def)

lemma denoted_hosts_Cons: "denoted_hosts (a # as) = atom_hosts a \<union> denoted_hosts as"
  by (auto simp add: denoted_hosts_def hosts_contain_def atom_hosts_def)

lemma finite_denoted_hosts: "finite (denoted_hosts atoms)"
  by (induction atoms) (simp_all add: denoted_hosts_Nil denoted_hosts_Cons finite_atom_hosts)

lemma count_atoms_extends:
  "distinct seen \<Longrightarrow> length seen \<le> cap \<Longrightarrow>
   extends_seen cap seen (denoted_hosts atoms - denoted_hosts exclude) (count_atoms exclude cap atoms seen)"
proof (induction atoms arbitrary: seen)
  case Nil
  then show ?case by (simp add: denoted_hosts_Nil extends_seen_stop)
next
  case (Cons a as)
  show ?case
  proof (cases "cap \<le> length seen")
    case True
    then have "extends_seen cap seen (denoted_hosts (a # as) - denoted_hosts exclude) seen"
      using Cons.prems by (simp add: extends_seen_stop)
    then show ?thesis using True by simp
  next
    case False
    then have lt: "length seen < cap" by simp
    let ?seen' = "count_atom exclude cap a seen"
    have v: "extends_seen cap seen (atom_hosts a - denoted_hosts exclude) ?seen'"
      using Cons.prems(1) lt by (rule count_atom_extends)
    then have d: "distinct ?seen'" and l: "length ?seen' \<le> cap"
      by (simp_all add: extends_seen_def)
    have c: "count_atoms exclude cap (a # as) seen = count_atoms exclude cap as ?seen'"
      using False by simp
    have u: "(atom_hosts a - denoted_hosts exclude) \<union> (denoted_hosts as - denoted_hosts exclude)
               = denoted_hosts (a # as) - denoted_hosts exclude"
      unfolding denoted_hosts_Cons by blast
    have "extends_seen cap ?seen' (denoted_hosts as - denoted_hosts exclude)
            (count_atoms exclude cap as ?seen')"
      by (rule Cons.IH [OF d l])
    with v have "extends_seen cap seen
        ((atom_hosts a - denoted_hosts exclude) \<union> (denoted_hosts as - denoted_hosts exclude))
        (count_atoms exclude cap as ?seen')"
      by (rule extends_seen_trans)
    then show ?thesis unfolding c u .
  qed
qed

lemma length_count_atoms:
  "length (count_atoms exclude cap atoms []) = min cap (card (denoted_hosts atoms - denoted_hosts exclude))"
proof -
  let ?r = "count_atoms exclude cap atoms []"
  let ?D = "denoted_hosts atoms - denoted_hosts exclude"
  have "extends_seen cap [] ?D ?r"
    by (rule count_atoms_extends) simp_all
  then have inv: "distinct ?r" "length ?r \<le> cap" "set ?r \<subseteq> ?D" "length ?r < cap \<longrightarrow> set ?r = ?D"
    by (simp_all add: extends_seen_def)
  have f: "finite ?D" by (simp add: finite_denoted_hosts)
  have k: "length ?r = card (set ?r)" using inv(1) by (simp add: distinct_card)
  show ?thesis
  proof (cases "length ?r < cap")
    case True
    then have "set ?r = ?D" using inv(4) by simp
    then show ?thesis using k True by simp
  next
    case False
    then have e: "length ?r = cap" using inv(2) by simp
    have "card (set ?r) \<le> card ?D" using f inv(3) by (rule card_mono)
    then show ?thesis using k e by simp
  qed
qed

lemma manage_count_hosts_max_parsed:
  assumes "parse_hosts expression = Some atoms" and "parse_hosts exclude = Some excluded" and "0 \<le> cap"
  shows "manage_count_hosts_max expression exclude cap
           = Inr (min cap (int (card (denoted_hosts atoms - denoted_hosts excluded))))"
  using assms by (simp add: manage_count_hosts_max_def length_count_atoms)

lemma manage_count_hosts_max_uniform:
  "\<exists>n. \<forall>cap\<ge>0. manage_count_hosts_max expression exclude cap = Inr (min cap (int n))"
proof (cases "parse_hosts expression")
  case None
  then have "\<forall>cap\<ge>0. manage_count_hosts_max expression exclude cap = Inr (min cap (int 0))"
    by (simp add: manage_count_hosts_max_def)
  then show ?thesis by blast
next
  case (Some atoms)
  note e = Some
  show ?thesis
  proof (cases "parse_hosts exclude")
    case None
    then have "\<forall>cap\<ge>0. manage_count_hosts_max expression exclude cap = Inr (min cap (int 0))"
      using e by (simp add: manage_count_hosts_max_def)
    then show ?thesis by blast
  next
    case (Some excluded)
    show ?thesis
      using manage_count_hosts_max_parsed [OF e Some]
      by blast
  qed
qed

text \<open>
  C2. For a cap that is not negative, and an expression and an exclude list that
  parse, the count is the minimum of the cap and the number of distinct hosts of the
  expression that are not in the exclude list. For every expression and exclude
  list the count never exceeds the cap and does not decrease when the cap grows.
  For present arguments the SQL callback returns this count at the configured cap.
\<close>

theorem count_hosts_capped:
  assumes "0 \<le> cap" and "cap \<le> cap'"
  shows "(parse_hosts expression = Some atoms \<and> parse_hosts exclude = Some excluded \<longrightarrow>
            manage_count_hosts_max expression exclude cap
              = Inr (min cap (int (card (denoted_hosts atoms - denoted_hosts excluded))))) \<and>
         (\<exists>n n'. manage_count_hosts_max expression exclude cap = Inr n \<and>
                  manage_count_hosts_max expression exclude cap' = Inr n' \<and> n \<le> n' \<and> n \<le> cap) \<and>
         (\<not> isnull a0 \<and> \<not> isnull a1 \<and> datum_value a0 = expression \<and> datum_value a1 = exclude \<and>
          CHR 0x00 \<notin> set expression \<and> CHR 0x00 \<notin> set exclude \<and> get_max_hosts m = cap \<longrightarrow>
            sql_max_hosts manage_count_hosts_max m a0 a1 = manage_count_hosts_max expression exclude cap)"
proof -
  have 1: "parse_hosts expression = Some atoms \<and> parse_hosts exclude = Some excluded \<longrightarrow>
            manage_count_hosts_max expression exclude cap
              = Inr (min cap (int (card (denoted_hosts atoms - denoted_hosts excluded))))"
    using assms(1) by (simp add: manage_count_hosts_max_parsed)
  obtain k where k: "\<forall>c\<ge>0. manage_count_hosts_max expression exclude c = Inr (min c (int k))"
    using manage_count_hosts_max_uniform by blast
  have "manage_count_hosts_max expression exclude cap = Inr (min cap (int k))"
    and "manage_count_hosts_max expression exclude cap' = Inr (min cap' (int k))"
    using k assms by simp_all
  moreover have "min cap (int k) \<le> min cap' (int k)" and "min cap (int k) \<le> cap"
    using assms(2) by simp_all
  ultimately have 2: "\<exists>n n'. manage_count_hosts_max expression exclude cap = Inr n \<and>
                  manage_count_hosts_max expression exclude cap' = Inr n' \<and> n \<le> n' \<and> n \<le> cap"
    by blast
  have 3: "\<not> isnull a0 \<and> \<not> isnull a1 \<and> datum_value a0 = expression \<and> datum_value a1 = exclude \<and>
          CHR 0x00 \<notin> set expression \<and> CHR 0x00 \<notin> set exclude \<and> get_max_hosts m = cap \<longrightarrow>
            sql_max_hosts manage_count_hosts_max m a0 a1 = manage_count_hosts_max expression exclude cap"
    by (auto simp add: sql_max_hosts_def Let_def c_string_textndup)
  show ?thesis using 1 2 3 by blast
qed

lemmas parse_simps = parse_hosts_def parse_atom_def parse_address_def parse_number_def trim_def
  split_first_def isspace_def isdigit_def decimal_value_def digit_value_def

lemma parse_example_exclude:
  "parse_hosts ''10.0.0.2'' = Some [SingleAddress 167772162]"
  by (simp add: parse_simps)

lemma parse_example_hosts:
  "parse_hosts ''10.0.0.1-10.0.0.5,10.0.0.3'' = Some [AddressRange 167772161 167772165, SingleAddress 167772163]"
  by (simp add: parse_simps)

lemmas count_simps = manage_count_hosts_max_def count_atom_def visit_def hosts_contain_def

lemma count_example_3:
  "manage_count_hosts_max ''10.0.0.1-10.0.0.5,10.0.0.3'' ''10.0.0.2'' 3 = Inr 3"
  by (simp add: parse_example_hosts parse_example_exclude count_simps)

lemma count_example_100:
  "manage_count_hosts_max ''10.0.0.1-10.0.0.5,10.0.0.3'' ''10.0.0.2'' 100 = Inr 4"
  by (simp add: parse_example_hosts parse_example_exclude count_simps)

theorem count_hosts_capped_witness:
  "manage_count_hosts_max ''10.0.0.1-10.0.0.5,10.0.0.3'' ''10.0.0.2'' 3 = Inr 3 \<and>
   manage_count_hosts_max ''10.0.0.1-10.0.0.5,10.0.0.3'' ''10.0.0.2'' 100 = Inr 4 \<and>
   card (denoted_hosts [AddressRange 167772161 167772165, SingleAddress 167772163]
         - denoted_hosts [SingleAddress 167772162]) = 4 \<and>
   sql_max_hosts manage_count_hosts_max (Map.empty(''max_hosts'' \<mapsto> Some ''3''))
     \<lparr>datum_value = ''10.0.0.1-10.0.0.5,10.0.0.3'', isnull = False\<rparr>
     \<lparr>datum_value = ''10.0.0.2'', isnull = False\<rparr> = Inr 3"
proof -
  let ?e = "''10.0.0.1-10.0.0.5,10.0.0.3''" and ?x = "''10.0.0.2''"
  let ?m = "Map.empty(''max_hosts'' \<mapsto> Some ''3'')"
  have g: "get_max_hosts ?m = 3"
    by (simp add: get_max_hosts_def SPI_exec_select_max_hosts_def SPI_OK_SELECT_def coalesce_def
        atoi_def strtol_def isspace_def isdigit_def decimal_value_def digit_value_def LONG_MAX_def LONG_MIN_def)
  note a = count_hosts_capped [of 3 100 ?e "[AddressRange 167772161 167772165, SingleAddress 167772163]"
      ?x "[SingleAddress 167772162]" "\<lparr>datum_value = ?e, isnull = False\<rparr>"
      "\<lparr>datum_value = ?x, isnull = False\<rparr>" ?m]
  note b = count_hosts_capped [of 100 100 ?e "[AddressRange 167772161 167772165, SingleAddress 167772163]"
      ?x "[SingleAddress 167772162]" "\<lparr>datum_value = ?e, isnull = False\<rparr>"
      "\<lparr>datum_value = ?x, isnull = False\<rparr>" ?m]
  have 1: "manage_count_hosts_max ?e ?x 3 = Inr 3" by (rule count_example_3)
  have 2: "manage_count_hosts_max ?e ?x 100 = Inr 4" by (rule count_example_100)
  have 3: "card (denoted_hosts [AddressRange 167772161 167772165, SingleAddress 167772163]
         - denoted_hosts [SingleAddress 167772162]) = 4"
  proof -
    have "min 100 (int (card (denoted_hosts [AddressRange 167772161 167772165, SingleAddress 167772163]
         - denoted_hosts [SingleAddress 167772162]))) = 4"
      using b 2 by (simp add: parse_example_hosts parse_example_exclude)
    then show ?thesis by arith
  qed
  have 4: "sql_max_hosts manage_count_hosts_max ?m \<lparr>datum_value = ?e, isnull = False\<rparr>
     \<lparr>datum_value = ?x, isnull = False\<rparr> = Inr 3"
    using a g 1 by simp
  show ?thesis using 1 2 3 4 by blast
qed

text \<open>
  The scenarios the specification lists for \<open>count\<close>, on the model: the overlapping
  singleton is counted once, the block of all addresses is cut at the cap without
  being enumerated in the proof, and an expression excluded by itself counts 0.
\<close>

lemma parse_empty: "parse_hosts '''' = Some []"
  by (simp add: parse_hosts_def trim_def)

lemma count_scenario_dedup:
  "manage_count_hosts_max ''10.0.0.1-10.0.0.5,10.0.0.3'' '''' 100 = Inr 5"
  by (simp add: parse_example_hosts parse_empty count_simps)

lemma parse_all_addresses: "parse_hosts ''0.0.0.0/0'' = Some [CIDRBlock 0 0]"
  by (simp add: parse_simps)

lemma count_scenario_all_addresses:
  "manage_count_hosts_max ''0.0.0.0/0'' '''' 4095 = Inr 4095"
proof -
  have b: "atom_bounds (CIDRBlock 0 0) = Some (0, 4294967295)" by simp
  have "denoted_hosts [CIDRBlock 0 0] - denoted_hosts [] = Address ` {0..4294967295}"
    by (simp add: denoted_hosts_Cons denoted_hosts_Nil atom_hosts_bounds [OF b])
  moreover have "card (Address ` {0..4294967295::nat}) = 4294967296"
    by (simp add: card_image inj_on_def)
  ultimately have "card (denoted_hosts [CIDRBlock 0 0] - denoted_hosts []) = 4294967296" by simp
  then show ?thesis
    using manage_count_hosts_max_parsed [OF parse_all_addresses parse_empty, of 4095] by simp
qed

lemma count_scenario_self_exclusion:
  assumes "0 \<le> cap"
  shows "manage_count_hosts_max expression expression cap = Inr 0"
proof (cases "parse_hosts expression")
  case None
  then show ?thesis using assms by (simp add: manage_count_hosts_max_def)
next
  case (Some atoms)
  show ?thesis
    using manage_count_hosts_max_parsed [OF Some Some assms] assms by simp
qed

subsection \<open>Next time of a schedule\<close>

text \<open>
  C7. With no argument or a null recurrence text the result is SQL NULL; with a
  present recurrence text the callback returns an \<^verbatim>\<open>int32\<close>.
\<close>

theorem next_time_null_text:
  "(nargs < 1 \<or> isnull a0 \<longrightarrow> sql_next_time_ical f nargs a0 a1 a2 = None) \<and>
   (\<not> (nargs < 1 \<or> isnull a0) \<longrightarrow> (\<exists>t. sql_next_time_ical f nargs a0 a1 a2 = Some t))"
  by (simp add: sql_next_time_ical_def Let_def)

theorem next_time_null_text_witness:
  "sql_next_time_ical (\<lambda>ical zone periods_offset. (1540000000 :: 64 word)) 0
     \<lparr>datum_value = ''BEGIN:VCALENDAR'', isnull = False\<rparr> \<lparr>datum_value = [], isnull = True\<rparr>
     \<lparr>datum_value = 0, isnull = False\<rparr> = None \<and>
   sql_next_time_ical (\<lambda>ical zone periods_offset. (1540000000 :: 64 word)) 3
     \<lparr>datum_value = [], isnull = True\<rparr> \<lparr>datum_value = [], isnull = True\<rparr>
     \<lparr>datum_value = 0, isnull = False\<rparr> = None \<and>
   (\<exists>t. sql_next_time_ical (\<lambda>ical zone periods_offset. (1540000000 :: 64 word)) 1
     \<lparr>datum_value = ''BEGIN:VCALENDAR'', isnull = False\<rparr> \<lparr>datum_value = [], isnull = True\<rparr>
     \<lparr>datum_value = 0, isnull = False\<rparr> = Some t)"
  using next_time_null_text [of 0 "\<lparr>datum_value = ''BEGIN:VCALENDAR'', isnull = False\<rparr>"
      "\<lambda>ical zone periods_offset. (1540000000 :: 64 word)"
      "\<lparr>datum_value = [], isnull = True\<rparr>" "\<lparr>datum_value = 0, isnull = False\<rparr>"]
    next_time_null_text [of 3 "\<lparr>datum_value = [], isnull = True\<rparr>"
      "\<lambda>ical zone periods_offset. (1540000000 :: 64 word)"
      "\<lparr>datum_value = [], isnull = True\<rparr>" "\<lparr>datum_value = 0, isnull = False\<rparr>"]
    next_time_null_text [of 1 "\<lparr>datum_value = ''BEGIN:VCALENDAR'', isnull = False\<rparr>"
      "\<lambda>ical zone periods_offset. (1540000000 :: 64 word)"
      "\<lparr>datum_value = [], isnull = True\<rparr>" "\<lparr>datum_value = 0, isnull = False\<rparr>"]
  by simp

text \<open>
  C10. The value returned for a present recurrence text is the next time computed
  by \<^verbatim>\<open>icalendar_next_time_from_string\<close> converted to \<^verbatim>\<open>int32\<close>: it equals that time
  reduced modulo 2^32 into the signed range, and differs from it whenever the time
  lies outside the \<^verbatim>\<open>int32\<close> range.
\<close>

theorem next_time_truncated:
  assumes "1 \<le> nargs" and "\<not> isnull a0"
    and "CHR 0x00 \<notin> set (datum_value a0)" and "CHR 0x00 \<notin> set (datum_value a1)"
    and "f (datum_value a0) (if nargs < 2 \<or> isnull a1 then None else Some (datum_value a1)) (datum_value a2) = t"
  shows "sql_next_time_ical f nargs a0 a1 a2 = Some (scast t) \<and>
         sint (scast t :: 32 word) = (sint t + 2 ^ 31) mod 2 ^ 32 - 2 ^ 31 \<and>
         (sint t < - (2 ^ 31) \<or> 2 ^ 31 \<le> sint t \<longrightarrow> sint (scast t :: 32 word) \<noteq> sint t)"
proof -
  have 1: "sql_next_time_ical f nargs a0 a1 a2 = Some (scast t)"
    using assms by (auto simp add: sql_next_time_ical_def Let_def c_string_textndup)
  have "sint (word_of_int (sint t) :: 32 word) = (sint t + 2 ^ 31) mod 2 ^ 32 - 2 ^ 31"
    unfolding int_word_sint by simp
  then have 3: "sint (scast t :: 32 word) = (sint t + 2 ^ 31) mod 2 ^ 32 - 2 ^ 31"
    unfolding scast_eq .
  have 4: "- (2 ^ 31) \<le> sint (scast t :: 32 word) \<and> sint (scast t :: 32 word) < 2 ^ 31"
    using sint_range_size [of "scast t :: 32 word"] by (simp add: word_size)
  show ?thesis using 1 3 4 by auto
qed

theorem next_time_truncated_witness:
  "sql_next_time_ical (\<lambda>ical zone periods_offset. (4294967296 + of_nat (length ical) :: 64 word)) 1
     \<lparr>datum_value = ''BEGIN:VCALENDAR'', isnull = False\<rparr> \<lparr>datum_value = [], isnull = True\<rparr>
     \<lparr>datum_value = 0, isnull = False\<rparr> = Some 15"
  using next_time_truncated [of 1 "\<lparr>datum_value = ''BEGIN:VCALENDAR'', isnull = False\<rparr>"
      "\<lparr>datum_value = [], isnull = True\<rparr>"
      "\<lambda>ical zone periods_offset. (4294967296 + of_nat (length ical) :: 64 word)"
      "\<lparr>datum_value = 0, isnull = False\<rparr>" "4294967311 :: 64 word"]
  by simp

text \<open>
  The null flag of the third slot has no influence on the result: only its Datum
  is read.
\<close>

lemma next_time_ignores_offset_null_flag:
  "sql_next_time_ical f nargs a0 a1 \<lparr>datum_value = k, isnull = True\<rparr>
     = sql_next_time_ical f nargs a0 a1 \<lparr>datum_value = k, isnull = False\<rparr>"
  by (simp add: sql_next_time_ical_def)

text \<open>
  C4. The periods offset is read from slot 2 without a look at its null flag or at
  the number of arguments: with a null third argument whose Datum holds 7, the
  next-time function is called with offset 7, not 0.
\<close>

theorem next_time_null_offset_read:
  "sql_next_time_ical (\<lambda>ical zone periods_offset. (scast periods_offset :: 64 word)) 3
     \<lparr>datum_value = ''BEGIN:VCALENDAR'', isnull = False\<rparr> \<lparr>datum_value = [], isnull = True\<rparr>
     \<lparr>datum_value = 7, isnull = True\<rparr> = Some 7 \<and>
   sql_next_time_ical (\<lambda>ical zone periods_offset. (scast periods_offset :: 64 word)) 3
     \<lparr>datum_value = ''BEGIN:VCALENDAR'', isnull = False\<rparr> \<lparr>datum_value = [], isnull = True\<rparr>
     \<lparr>datum_value = 0, isnull = False\<rparr> = Some 0"
  by (simp add: sql_next_time_ical_def Let_def)

subsection \<open>Regular expression match\<close>

text \<open>
  C9. If either argument is null the result is false; otherwise, for texts free of
  zero bytes, the result is true exactly when \<^verbatim>\<open>g_regex_match_simple\<close> reports that
  the first argument matches the pattern given as the second argument.
\<close>

theorem regexp_match:
  "(isnull a0 \<or> isnull a1 \<longrightarrow> sql_regexp g_regex_match_simple a0 a1 = False) \<and>
   (\<not> isnull a0 \<and> \<not> isnull a1 \<and> CHR 0x00 \<notin> set (datum_value a0) \<and> CHR 0x00 \<notin> set (datum_value a1) \<longrightarrow>
      sql_regexp g_regex_match_simple a0 a1
        = (g_regex_match_simple (datum_value a1) (datum_value a0) 0 0 \<noteq> 0))"
  by (simp add: sql_regexp_def Let_def c_string_textndup)

theorem regexp_match_witness:
  "sql_regexp (\<lambda>pattern str copts mopts. if pattern = str then 1 else 0)
     \<lparr>datum_value = ''abc'', isnull = True\<rparr> \<lparr>datum_value = ''abc'', isnull = False\<rparr> = False \<and>
   sql_regexp (\<lambda>pattern str copts mopts. if pattern = str then 1 else 0)
     \<lparr>datum_value = ''abc'', isnull = False\<rparr> \<lparr>datum_value = ''abc'', isnull = False\<rparr> = True \<and>
   sql_regexp (\<lambda>pattern str copts mopts. if pattern = str then 1 else 0)
     \<lparr>datum_value = ''abd'', isnull = False\<rparr> \<lparr>datum_value = ''abc'', isnull = False\<rparr> = False"
  using regexp_match [of "\<lparr>datum_value = ''abc'', isnull = True\<rparr>" "\<lparr>datum_value = ''abc'', isnull = False\<rparr>"
      "\<lambda>pattern str copts mopts. if pattern = str then 1 else 0"]
    regexp_match [of "\<lparr>datum_value = ''abc'', isnull = False\<rparr>" "\<lparr>datum_value = ''abc'', isnull = False\<rparr>"
      "\<lambda>pattern str copts mopts. if pattern = str then 1 else 0"]
    regexp_match [of "\<lparr>datum_value = ''abd'', isnull = False\<rparr>" "\<lparr>datum_value = ''abc'', isnull = False\<rparr>"
      "\<lambda>pattern str copts mopts. if pattern = str then 1 else 0"]
  by simp

end
